theory Spec2Isabelle
  imports Complex_Main
begin

section \<open>Land cover parameters (lines 1-18)\<close>

text \<open>
  The class catalog of the script: three parallel arrays. JavaScript numbers that hold
  integer literals are modelled by \<open>int\<close>.
\<close>

definition LULC_class_values :: "int list" where
  "LULC_class_values = [1, 2, 3, 4, 5, 6]"

definition LULC_class_palette :: "string list" where
  "LULC_class_palette = [''013220'', ''FFC0CB'', ''FFFF00'', ''0000FF'', ''FF0000'', ''008000'']"

definition LULC_class_names :: "string list" where
  "LULC_class_names =
     [''Waterbody'', ''Dense forest'', ''Agriculture land'', ''Range land'', ''Builtup'',
      ''Barren land'']"

text \<open>The code set \<open>C = {1..K}\<close> of a catalog of size \<open>K\<close>, in catalog order.\<close>

definition class_codes :: "nat \<Rightarrow> int list" where
  "class_codes K = map int [1..<Suc K]"

section \<open>Images of the platform, pixel by pixel\<close>

text \<open>
  An image band is a function from pixel positions to values; \<open>None\<close> is a masked pixel.
  The operations below are the per-pixel meaning of the platform calls the script makes:
  a binary operation is masked where either operand is, comparisons yield 1 or 0,
  \<open>where\<close> replaces the input's value where the test is unmasked and non-zero and leaves
  a masked input alone, and \<open>selfMask\<close> masks the pixels whose value is zero.
\<close>

type_synonym 'p image = "'p \<Rightarrow> int option"

definition ee_Image :: "int \<Rightarrow> 'p image" where
  "ee_Image c = (\<lambda>p. Some c)"

definition ee_eq :: "'p image \<Rightarrow> int \<Rightarrow> 'p image" where
  "ee_eq img v = (\<lambda>p. case img p of None \<Rightarrow> None
                      | Some a \<Rightarrow> Some (if a = v then 1 else 0))"

definition ee_neq :: "'p image \<Rightarrow> 'p image \<Rightarrow> 'p image" where
  "ee_neq img1 img2 = (\<lambda>p. case img1 p of None \<Rightarrow> None
                      | Some a \<Rightarrow> (case img2 p of None \<Rightarrow> None
                                  | Some b \<Rightarrow> Some (if a \<noteq> b then 1 else 0)))"

definition ee_and :: "'p image \<Rightarrow> 'p image \<Rightarrow> 'p image" where
  "ee_and img1 img2 = (\<lambda>p. case img1 p of None \<Rightarrow> None
                      | Some a \<Rightarrow> (case img2 p of None \<Rightarrow> None
                                  | Some b \<Rightarrow> Some (if a \<noteq> 0 \<and> b \<noteq> 0 then 1 else 0)))"

definition ee_multiply :: "'p image \<Rightarrow> 'p image \<Rightarrow> 'p image" where
  "ee_multiply img1 img2 = (\<lambda>p. case img1 p of None \<Rightarrow> None
                      | Some a \<Rightarrow> (case img2 p of None \<Rightarrow> None
                                  | Some b \<Rightarrow> Some (a * b)))"

definition ee_where :: "'p image \<Rightarrow> 'p image \<Rightarrow> int \<Rightarrow> 'p image" where
  "ee_where input test v = (\<lambda>p. case input p of None \<Rightarrow> None
                      | Some x \<Rightarrow> (case test p of None \<Rightarrow> Some x
                                  | Some t \<Rightarrow> if t \<noteq> 0 then Some v else Some x))"

definition ee_selfMask :: "'p image \<Rightarrow> 'p image" where
  "ee_selfMask img = (\<lambda>p. case img p of None \<Rightarrow> None
                      | Some x \<Rightarrow> if x = 0 then None else Some x)"

definition ee_clip :: "'p image \<Rightarrow> 'p set \<Rightarrow> 'p image" where
  "ee_clip img region = (\<lambda>p. if p \<in> region then img p else None)"

section \<open>The land cover change map (lines 38-56)\<close>

text \<open>
  Reading a JavaScript array past its end gives \<open>undefined\<close>, which string concatenation
  renders as the text \<open>undefined\<close>.
\<close>

definition js_index :: "string list \<Rightarrow> nat \<Rightarrow> string" where
  "js_index names i = (if i < length names then names ! i else ''undefined'')"

definition changeValue :: "int \<Rightarrow> int \<Rightarrow> int" where
  "changeValue value1 value2 = value1 * 100 + value2"

definition changeName :: "string list \<Rightarrow> nat \<Rightarrow> nat \<Rightarrow> string" where
  "changeName names index1 index2 = js_index names index1 @ '' -> '' @ js_index names index2"

text \<open>The three variables the nested loops update: two arrays and the image.\<close>

record 'p encoder =
  changeValues :: "int list"
  changeNames :: "string list"
  changeMap :: "'p image"

text \<open>
  \<open>values.map(function(value, index) ...)\<close> calls its function on each element with its
  position, in order.
\<close>

definition js_entries :: "'a list \<Rightarrow> ('a \<times> nat) list" where
  "js_entries xs = zip xs [0..<length xs]"

text \<open>The body of the inner function (lines 44-50).\<close>

definition inner_body ::
  "string list \<Rightarrow> 'p image \<Rightarrow> 'p image \<Rightarrow> int \<Rightarrow> nat \<Rightarrow> int \<times> nat \<Rightarrow> 'p encoder \<Rightarrow> 'p encoder" where
  "inner_body names image0 image1 value1 index1 = (\<lambda>(value2, index2) st.
     \<lparr> changeValues = changeValues st @ [changeValue value1 value2],
       changeNames = changeNames st @ [changeName names index1 index2],
       changeMap = ee_where (changeMap st)
                     (ee_and (ee_eq image0 value1) (ee_eq image1 value2))
                     (changeValue value1 value2) \<rparr>)"

definition outer_body ::
  "int list \<Rightarrow> string list \<Rightarrow> 'p image \<Rightarrow> 'p image \<Rightarrow> int \<times> nat \<Rightarrow> 'p encoder \<Rightarrow> 'p encoder" where
  "outer_body vals names image0 image1 = (\<lambda>(value1, index1) st.
     fold (inner_body names image0 image1 value1 index1) (js_entries vals) st)"

text \<open>The state after line 52, from the initial values of lines 39-41.\<close>

definition change_loop :: "int list \<Rightarrow> string list \<Rightarrow> 'p image \<Rightarrow> 'p image \<Rightarrow> 'p encoder" where
  "change_loop vals names image0 image1 =
     fold (outer_body vals names image0 image1) (js_entries vals)
       \<lparr> changeValues = [], changeNames = [], changeMap = ee_Image 0 \<rparr>"

text \<open>Line 55 reassigns the variable: from here on \<open>changeMap\<close> is the self-masked image.\<close>

definition changeMap_selfMasked :: "int list \<Rightarrow> string list \<Rightarrow> 'p image \<Rightarrow> 'p image \<Rightarrow> 'p image" where
  "changeMap_selfMasked vals names image0 image1 =
     ee_selfMask (changeMap (change_loop vals names image0 image1))"

section \<open>The change dictionary (lines 58-60)\<close>

text \<open>
  \<open>String(value)\<close> of a number that holds an integer is its decimal numeral, with a
  leading minus sign for a negative one (below \<open>10^21\<close> in magnitude, far above any
  encoded transition).
\<close>

definition digit_char :: "nat \<Rightarrow> char" where
  "digit_char d = char_of (48 + d)"

fun nat_digits :: "nat \<Rightarrow> string" where
  "nat_digits n =
     (if n < 10 then [digit_char n] else nat_digits (n div 10) @ [digit_char (n mod 10)])"

declare nat_digits.simps [simp del]

definition js_String :: "int \<Rightarrow> string" where
  "js_String i = (if i < 0 then CHR ''-'' # nat_digits (nat (- i)) else nat_digits (nat i))"

text \<open>
  A dictionary built from a list of keys and a list of values holds one entry for each
  key: the pairs are stored one after the other, so a repeated key keeps a single entry.
  The properties below are about lists of pairwise different keys, where the order of
  storing plays no part.
\<close>

definition dict_put :: "'k \<times> 'v \<Rightarrow> ('k \<rightharpoonup> 'v) \<Rightarrow> ('k \<rightharpoonup> 'v)" where
  "dict_put kv m = m(fst kv \<mapsto> snd kv)"

definition ee_Dictionary_fromLists :: "'k list \<Rightarrow> 'v list \<Rightarrow> ('k \<rightharpoonup> 'v)" where
  "ee_Dictionary_fromLists keys vals = fold dict_put (zip keys vals) Map.empty"

definition changeDict :: "int list \<Rightarrow> string list \<Rightarrow> 'p image \<Rightarrow> 'p image \<Rightarrow> (string \<rightharpoonup> string)" where
  "changeDict vals names image0 image1 =
     (let st = change_loop vals names image0 image1
      in ee_Dictionary_fromLists (map js_String (changeValues st)) (changeNames st))"

text \<open>
  The outcome of lines 38-60 as a whole. The script has no check of the catalog and no
  \<open>throw\<close>: it always reaches line 60 with the arrays filled and the image self-masked.
\<close>

datatype error = ConfigurationError | ListIndexError

definition Transition_Encoder ::
  "int list \<Rightarrow> string list \<Rightarrow> 'p image \<Rightarrow> 'p image \<Rightarrow> error + 'p encoder" where
  "Transition_Encoder vals names image0 image1 =
     Inr ((change_loop vals names image0 image1)
            \<lparr> changeMap := changeMap_selfMasked vals names image0 image1 \<rparr>)"

section \<open>Feature images (lines 54-69 and 104-110)\<close>

text \<open>The layer that line 56 adds to the map: the variable as line 55 left it.\<close>

definition change_map_layer :: "int list \<Rightarrow> string list \<Rightarrow> 'p image \<Rightarrow> 'p image \<Rightarrow> string \<times> 'p image" where
  "change_map_layer vals names lulc2014 lulc2024 =
     (''Land cover change map'', changeMap_selfMasked vals names lulc2014 lulc2024)"

text \<open>A multi-band image is the list of its named bands, in band order.\<close>

definition variables ::
  "int list \<Rightarrow> string list \<Rightarrow> 'p image \<Rightarrow> 'p image \<Rightarrow> 'p image \<Rightarrow> 'p set \<Rightarrow> (string \<times> 'p image) list" where
  "variables vals names lulc2014 lulc2024 srtm roi =
     [(''start'', lulc2014),
      (''end'', lulc2024),
      (''transition'', changeMap_selfMasked vals names lulc2014 lulc2024),
      (''elevation'', ee_clip srtm roi),
      (''year'', ee_multiply (ee_Image 2024) (ee_neq lulc2014 lulc2024))]"

definition variables2025 ::
  "int list \<Rightarrow> string list \<Rightarrow> 'p image \<Rightarrow> 'p image \<Rightarrow> 'p image \<Rightarrow> 'p set \<Rightarrow> (string \<times> 'p image) list" where
  "variables2025 vals names lulc2014 lulc2024 srtm roi =
     [(''start'', lulc2024),
      (''transition'', changeMap_selfMasked vals names lulc2014 lulc2024),
      (''elevation'', ee_clip srtm roi),
      (''year'', ee_multiply (ee_Image 2033) (ee_neq lulc2024 lulc2014))]"

text \<open>
  The value of a named band at a pixel: \<open>None\<close> when the image has no such band,
  \<open>Some None\<close> when the band is masked there.
\<close>

definition band_pixel :: "(string \<times> 'p image) list \<Rightarrow> string \<Rightarrow> 'p \<Rightarrow> int option option" where
  "band_pixel bands name p = (case map_of bands name of None \<Rightarrow> None | Some img \<Rightarrow> Some (img p))"

section \<open>Train and test split (lines 85-87)\<close>

text \<open>
  A sampled feature is its dictionary of numeric properties. A filter on a property
  keeps the features that have the property and satisfy the comparison. The random
  column and the threshold are doubles; their order is the order of the reals they
  denote, so they are modelled by \<open>real\<close>.
\<close>

type_synonym feature = "string \<rightharpoonup> real"

definition ee_Filter_lte :: "string \<Rightarrow> real \<Rightarrow> feature \<Rightarrow> bool" where
  "ee_Filter_lte name v ft = (case ft name of None \<Rightarrow> False | Some x \<Rightarrow> x \<le> v)"

definition ee_Filter_gt :: "string \<Rightarrow> real \<Rightarrow> feature \<Rightarrow> bool" where
  "ee_Filter_gt name v ft = (case ft name of None \<Rightarrow> False | Some x \<Rightarrow> x > v)"

definition train :: "feature list \<Rightarrow> feature list" where
  "train sample = filter (ee_Filter_lte ''random'' 0.8) sample"

definition test :: "feature list \<Rightarrow> feature list" where
  "test sample = filter (ee_Filter_gt ''random'' 0.8) sample"

section \<open>Land cover area per year (lines 116-138)\<close>

text \<open>The list after line 117 has pushed the prediction: each entry a year and an image.\<close>

definition lulcList :: "'p image \<Rightarrow> 'p image \<Rightarrow> 'p image \<Rightarrow> (int \<times> 'p image) list" where
  "lulcList lulc2014 lulc2024 lulc2033 = [(2014, lulc2014), (2024, lulc2024), (2033, lulc2033)]"

text \<open>\<open>ee.Image.pixelArea().divide(10000)\<close>: the area of each pixel, from square metres.\<close>

definition imageArea :: "('p \<Rightarrow> real) \<Rightarrow> 'p \<Rightarrow> real" where
  "imageArea pixelArea = (\<lambda>p. pixelArea p / 10000)"

text \<open>
  The grouped sum reducer over the pixels of the region: one group for each class value
  met at an unmasked pixel, holding the sum of the first band over the pixels of that
  class.
\<close>

record area_group =
  group_class :: int
  group_area :: real

definition reduceRegion_groups :: "('p \<Rightarrow> real) \<Rightarrow> 'p image \<Rightarrow> 'p list \<Rightarrow> area_group list" where
  "reduceRegion_groups band0 img pixels =
     map (\<lambda>c. \<lparr> group_class = c,
                group_area = sum_list (map band0 (filter (\<lambda>p. img p = Some c) pixels)) \<rparr>)
       (sort (remdups (List.map_filter img pixels)))"

text \<open>
  \<open>ee.List.get\<close>: a negative index counts backwards from the end of the list, and an
  index outside \<open>-n .. n-1\<close> is an error of the platform.
\<close>

definition ee_List_get :: "'a list \<Rightarrow> int \<Rightarrow> error + 'a" where
  "ee_List_get xs i =
     (if 0 \<le> i \<and> i < int (length xs) then Inr (xs ! nat i)
      else if - int (length xs) \<le> i \<and> i < 0 then Inr (xs ! nat (int (length xs) + i))
      else Inl ListIndexError)"

record area_feature = area_group +
  year :: int
  LULC :: string

text \<open>The function mapped over the groups (lines 129-135); an error in one group fails all.\<close>

fun features :: "string list \<Rightarrow> int \<Rightarrow> area_group list \<Rightarrow> error + area_feature list" where
  "features names yr [] = Inr []"
| "features names yr (dictionary # rest) =
     (case ee_List_get names (group_class dictionary - 1) of
        Inl e \<Rightarrow> Inl e
      | Inr label \<Rightarrow>
          (case features names yr rest of
             Inl e \<Rightarrow> Inl e
           | Inr fs \<Rightarrow> Inr (\<lparr> group_class = group_class dictionary,
                              group_area = group_area dictionary,
                              year = yr, LULC = label \<rparr> # fs)))"

text \<open>The function mapped over \<open>lulcList\<close> (lines 120-137), and the flattened collection.\<close>

definition epoch_features ::
  "string list \<Rightarrow> ('p \<Rightarrow> real) \<Rightarrow> 'p list \<Rightarrow> int \<times> 'p image \<Rightarrow> error + area_feature list" where
  "epoch_features names pixelArea pixels = (\<lambda>(yr, img).
     features names yr (reduceRegion_groups (imageArea pixelArea) img pixels))"

fun flatten :: "(error + 'a list) list \<Rightarrow> error + 'a list" where
  "flatten [] = Inr []"
| "flatten (Inl e # rest) = Inl e"
| "flatten (Inr xs # rest) = (case flatten rest of Inl e \<Rightarrow> Inl e | Inr ys \<Rightarrow> Inr (xs @ ys))"

definition lulcAreafeatures ::
  "string list \<Rightarrow> ('p \<Rightarrow> real) \<Rightarrow> 'p list \<Rightarrow> 'p image \<Rightarrow> 'p image \<Rightarrow> 'p image
     \<Rightarrow> error + area_feature list" where
  "lulcAreafeatures names pixelArea pixels lulc2014 lulc2024 lulc2033 =
     flatten (map (epoch_features names pixelArea pixels) (lulcList lulc2014 lulc2024 lulc2033))"

text \<open>
  The relabelling is meant for images whose classes over the region are positions of the
  name list counted from 1.
\<close>

definition classes_named :: "string list \<Rightarrow> 'p list \<Rightarrow> 'p image \<Rightarrow> bool" where
  "classes_named names pixels img =
     list_all (\<lambda>p. case img p of None \<Rightarrow> True
                    | Some c \<Rightarrow> 1 \<le> c \<and> c \<le> int (length names)) pixels"

text \<open>
  The name a catalog gives to a code: the catalog pairs the codes with the names, position
  by position.
\<close>

definition catalog_name :: "int list \<Rightarrow> string list \<Rightarrow> int \<Rightarrow> string option" where
  "catalog_name vals names c = map_of (zip vals names) c"

text \<open>
  The area records of one epoch as the specification words them, for the catalog with the
  codes 1..K that the names belong to: for each class met in the region, the summed pixel
  area in square metres divided by 10000, the catalog name of the class, and the year of
  the epoch.
\<close>

definition AreaRecords_spec ::
  "string list \<Rightarrow> ('p \<Rightarrow> real) \<Rightarrow> 'p list \<Rightarrow> int \<Rightarrow> 'p image \<Rightarrow> area_feature list" where
  "AreaRecords_spec names pixelArea pixels yr img =
     map (\<lambda>c. \<lparr> group_class = c,
                group_area = sum_list (map pixelArea (filter (\<lambda>p. img p = Some c) pixels)) / 10000,
                year = yr,
                LULC = the (catalog_name (class_codes (length names)) names c) \<rparr>)
       (sort (remdups (List.map_filter img pixels)))"

section \<open>What the nested loops compute\<close>

text \<open>The two arrays grow by one entry for each pair, in the order of the loops.\<close>

lemma fold_inner_changeValues:
  "changeValues (fold (inner_body names f t v1 i1) ps st)
     = changeValues st @ map (\<lambda>(v2, i2). changeValue v1 v2) ps"
  by (induction ps arbitrary: st) (auto simp: inner_body_def)

lemma fold_inner_changeNames:
  "changeNames (fold (inner_body names f t v1 i1) ps st)
     = changeNames st @ map (\<lambda>(v2, i2). changeName names i1 i2) ps"
  by (induction ps arbitrary: st) (auto simp: inner_body_def)

lemma fold_outer_changeValues:
  "changeValues (fold (outer_body vals names f t) qs st)
     = changeValues st @ concat (map (\<lambda>(v1, i1). map (\<lambda>(v2, i2). changeValue v1 v2) (js_entries vals)) qs)"
  by (induction qs arbitrary: st) (auto simp: outer_body_def fold_inner_changeValues)

lemma fold_outer_changeNames:
  "changeNames (fold (outer_body vals names f t) qs st)
     = changeNames st @ concat (map (\<lambda>(v1, i1). map (\<lambda>(v2, i2). changeName names i1 i2) (js_entries vals)) qs)"
  by (induction qs arbitrary: st) (auto simp: outer_body_def fold_inner_changeNames)

lemma map_fst_js_entries: "map (\<lambda>(v, i). g v) (js_entries xs) = map g xs"
proof -
  have "map (\<lambda>(v, i). g v) (js_entries xs) = map g (map fst (js_entries xs))"
    by (simp add: case_prod_beta comp_def)
  then show ?thesis by (simp add: js_entries_def)
qed

lemma map_snd_js_entries: "map (\<lambda>(v, i). h i) (js_entries xs) = map h [0..<length xs]"
proof -
  have "map (\<lambda>(v, i). h i) (js_entries xs) = map h (map snd (js_entries xs))"
    by (simp add: case_prod_beta comp_def)
  then show ?thesis by (simp add: js_entries_def)
qed

lemma concat_map_product:
  "concat (map (\<lambda>x. map (g x) ys) xs) = map (\<lambda>(x, y). g x y) (List.product xs ys)"
  by (induction xs) (auto simp: comp_def)

lemma changeValues_change_loop:
  "changeValues (change_loop vals names f t)
     = map (\<lambda>(v1, v2). changeValue v1 v2) (List.product vals vals)"
proof -
  have "changeValues (change_loop vals names f t)
      = concat (map (\<lambda>(v1, i1). map (changeValue v1) vals) (js_entries vals))"
    by (simp add: change_loop_def fold_outer_changeValues map_fst_js_entries)
  also have "\<dots> = concat (map (\<lambda>v1. map (changeValue v1) vals) vals)"
    by (simp only: map_fst_js_entries)
  finally show ?thesis by (simp only: concat_map_product)
qed

lemma changeNames_change_loop:
  "changeNames (change_loop vals names f t)
     = map (\<lambda>(i1, i2). changeName names i1 i2)
         (List.product [0..<length vals] [0..<length vals])"
proof -
  have "changeNames (change_loop vals names f t)
      = concat (map (\<lambda>(v1, i1). map (changeName names i1) [0..<length vals]) (js_entries vals))"
    by (simp add: change_loop_def fold_outer_changeNames map_snd_js_entries)
  also have "\<dots> = concat (map (\<lambda>i1. map (changeName names i1) [0..<length vals]) [0..<length vals])"
    by (simp only: map_snd_js_entries)
  finally show ?thesis by (simp only: concat_map_product)
qed

text \<open>
  The image, pixel by pixel: a pixel takes the encoding of its pair of classes when both
  are catalog values, and keeps the initial 0 otherwise.
\<close>

lemma where_pixel:
  "ee_where inp (ee_and (ee_eq f v1) (ee_eq t v2)) c p =
     (case inp p of None \<Rightarrow> None
      | Some x \<Rightarrow> Some (if f p = Some v1 \<and> t p = Some v2 then c else x))"
  by (auto simp: ee_where_def ee_and_def ee_eq_def split: option.splits)

lemma inner_body_changeMap:
  "changeMap (inner_body names f t v1 i1 (v2, i2) st) p =
     (case changeMap st p of None \<Rightarrow> None
      | Some x \<Rightarrow> Some (if f p = Some v1 \<and> t p = Some v2 then changeValue v1 v2 else x))"
  by (simp add: inner_body_def where_pixel)

lemma fold_inner_changeMap:
  "changeMap (fold (inner_body names f t v1 i1) ps st) p =
     (case changeMap st p of None \<Rightarrow> None
      | Some x \<Rightarrow> Some (if f p = Some v1 \<and> (\<exists>v2 \<in> fst ` set ps. t p = Some v2)
                         then changeValue v1 (the (t p)) else x))"
proof (induction ps arbitrary: st)
  case Nil
  then show ?case by (simp split: option.splits)
next
  case (Cons q ps)
  obtain v2 i2 where q: "q = (v2, i2)" by (cases q)
  show ?case
    by (auto simp: q Cons.IH inner_body_changeMap split: option.splits)
qed

lemma outer_body_changeMap:
  "changeMap (outer_body vals names f t (v1, i1) st) p =
     (case changeMap st p of None \<Rightarrow> None
      | Some x \<Rightarrow> Some (if f p = Some v1 \<and> (\<exists>v2 \<in> set vals. t p = Some v2)
                         then changeValue v1 (the (t p)) else x))"
proof -
  have "fst ` set (js_entries vals) = set vals"
    by (simp add: js_entries_def flip: set_map)
  then show ?thesis
    by (simp only: outer_body_def prod.case fold_inner_changeMap)
qed

lemma fold_outer_changeMap:
  "changeMap (fold (outer_body vals names f t) qs st) p =
     (case changeMap st p of None \<Rightarrow> None
      | Some x \<Rightarrow> Some (if (\<exists>v1 \<in> fst ` set qs. f p = Some v1) \<and> (\<exists>v2 \<in> set vals. t p = Some v2)
                         then changeValue (the (f p)) (the (t p)) else x))"
proof (induction qs arbitrary: st)
  case Nil
  then show ?case by (simp split: option.splits)
next
  case (Cons q qs)
  obtain v1 i1 where q: "q = (v1, i1)" by (cases q)
  show ?case
    by (auto simp: q Cons.IH outer_body_changeMap split: option.splits)
qed

lemma changeMap_change_loop:
  "changeMap (change_loop vals names f t) p =
     Some (case f p of None \<Rightarrow> 0
           | Some a \<Rightarrow> (case t p of None \<Rightarrow> 0
              | Some b \<Rightarrow> if a \<in> set vals \<and> b \<in> set vals then changeValue a b else 0))"
proof -
  have "fst ` set (js_entries vals) = set vals"
    by (simp add: js_entries_def flip: set_map)
  then show ?thesis
    by (auto simp: change_loop_def fold_outer_changeMap ee_Image_def split: option.splits)
qed

section \<open>Decimal numerals are one-to-one\<close>

lemma of_char_digit_char: "d < 10 \<Longrightarrow> (of_char (digit_char d) :: nat) = 48 + d"
  by (simp add: digit_char_def)

lemma digit_char_inj: "d < 10 \<Longrightarrow> e < 10 \<Longrightarrow> digit_char d = digit_char e \<Longrightarrow> d = e"
  by (metis of_char_digit_char add_left_cancel)

lemma digit_char_not_minus: "d < 10 \<Longrightarrow> digit_char d \<noteq> CHR ''-''"
proof
  assume "d < 10" and "digit_char d = CHR ''-''"
  then have "(of_char (CHR ''-'') :: nat) = 48 + d"
    using of_char_digit_char by metis
  then show False by simp
qed

lemma nat_digits_not_Nil: "nat_digits n \<noteq> []"
  by (subst nat_digits.simps) simp

lemma nat_digits_last: "last (nat_digits n) = digit_char (n mod 10)"
  by (subst nat_digits.simps) simp

lemma nat_digits_butlast: "butlast (nat_digits n) = (if n < 10 then [] else nat_digits (n div 10))"
  by (subst nat_digits.simps) (simp add: butlast_append)

lemma nat_digits_inj: "nat_digits m = nat_digits n \<Longrightarrow> m = n"
proof (induction m arbitrary: n rule: nat_digits.induct)
  case (1 m)
  from "1.prems" have l: "digit_char (m mod 10) = digit_char (n mod 10)"
    by (metis nat_digits_last)
  then have r: "m mod 10 = n mod 10"
    by (intro digit_char_inj) simp_all
  from "1.prems" have b: "butlast (nat_digits m) = butlast (nat_digits n)" by simp
  show ?case
  proof (cases "m < 10")
    case True
    with b have "n < 10"
      by (auto simp: nat_digits_butlast nat_digits_not_Nil split: if_splits dest: sym)
    with True r show ?thesis by simp
  next
    case False
    with b have n: "\<not> n < 10" and "nat_digits (m div 10) = nat_digits (n div 10)"
      by (auto simp: nat_digits_butlast nat_digits_not_Nil split: if_splits)
    with False "1.IH" have "m div 10 = n div 10" by blast
    with r show ?thesis by (metis div_mult_mod_eq)
  qed
qed

lemma nat_digits_hd: "hd (nat_digits n) \<noteq> CHR ''-''"
proof (induction n rule: nat_digits.induct)
  case (1 n)
  show ?case
  proof (cases "n < 10")
    case True
    then show ?thesis by (subst nat_digits.simps) (simp add: digit_char_not_minus)
  next
    case False
    with 1 show ?thesis by (subst nat_digits.simps) (simp add: nat_digits_not_Nil)
  qed
qed

lemma js_String_inj: "js_String i = js_String j \<Longrightarrow> i = j"
proof -
  assume a: "js_String i = js_String j"
  have neg: "CHR ''-'' # xs \<noteq> nat_digits n" for xs n
    using nat_digits_hd [of n] by (metis list.sel(1))
  show "i = j"
  proof (cases "i < 0")
    case True
    show ?thesis
    proof (cases "j < 0")
      case jn: True
      with True a have "nat (- i) = nat (- j)"
        by (auto simp: js_String_def dest: nat_digits_inj)
      with True jn show ?thesis by simp
    next
      case False
      with True a neg show ?thesis by (auto simp: js_String_def)
    qed
  next
    case False
    show ?thesis
    proof (cases "j < 0")
      case True
      with False a neg [of "nat_digits (nat (- j))" "nat i"] show ?thesis
        by (auto simp: js_String_def)
    next
      case jp: False
      with False a have "nat i = nat j"
        by (auto simp: js_String_def dest: nat_digits_inj)
      with False jp show ?thesis by simp
    qed
  qed
qed

lemma inj_js_String: "inj js_String"
  by (rule injI) (rule js_String_inj)

section \<open>Dictionaries and positions in the arrays\<close>

lemma fold_upd_other:
  "k \<notin> fst ` set kvs \<Longrightarrow> fold dict_put kvs m k = m k"
  by (induction kvs arbitrary: m) (auto simp: dict_put_def)

lemma fold_upd_dom:
  "dom (fold dict_put kvs m) = dom m \<union> fst ` set kvs"
  by (induction kvs arbitrary: m) (auto simp: dict_put_def)

lemma fold_upd_lookup:
  "distinct (map fst kvs) \<Longrightarrow> (k, v) \<in> set kvs \<Longrightarrow> fold dict_put kvs m k = Some v"
proof (induction kvs arbitrary: m)
  case Nil
  then show ?case by simp
next
  case (Cons q kvs)
  show ?case
  proof (cases "(k, v) = q")
    case True
    with Cons.prems have "fst q \<notin> set (map fst kvs)" and "fst q = k" by auto
    then have nk: "k \<notin> fst ` set kvs" by simp
    have "fold dict_put (q # kvs) m k = fold dict_put kvs (dict_put q m) k"
      by simp
    also have "\<dots> = dict_put q m k"
      using nk by (rule fold_upd_other)
    also have "\<dots> = Some v"
      using True by (auto simp: dict_put_def)
    finally show ?thesis .
  next
    case False
    with Cons show ?thesis by auto
  qed
qed

lemma dom_fromLists:
  "length ks = length vs \<Longrightarrow> dom (ee_Dictionary_fromLists ks vs) = set ks"
proof -
  assume "length ks = length vs"
  then have "fst ` set (zip ks vs) = set ks"
    by (metis map_fst_zip set_map)
  then show ?thesis by (simp add: ee_Dictionary_fromLists_def fold_upd_dom)
qed

lemma fromLists_nth:
  assumes "length ks = length vs" "distinct ks" "n < length ks"
  shows "ee_Dictionary_fromLists ks vs (ks ! n) = Some (vs ! n)"
proof -
  have "(ks ! n, vs ! n) \<in> set (zip ks vs)"
    using assms(1,3) by (metis in_set_zip fst_conv snd_conv)
  moreover have "distinct (map fst (zip ks vs))"
    using assms(1,2) by simp
  ultimately show ?thesis
    unfolding ee_Dictionary_fromLists_def by (rule fold_upd_lookup [rotated])
qed

lemma length_changeValues: "length (changeValues (change_loop vals names f t)) = length vals * length vals"
  by (simp add: changeValues_change_loop)

lemma length_changeNames: "length (changeNames (change_loop vals names f t)) = length vals * length vals"
  by (simp add: changeNames_change_loop)

lemma pair_index:
  fixes i j K :: nat
  assumes "j < K"
  shows "(i * K + j) div K = i" and "(i * K + j) mod K = j"
  using assms by simp_all

lemma pair_index_less:
  fixes i j K :: nat
  assumes "i < K" "j < K"
  shows "i * K + j < K * K"
proof -
  have "i * K + j < i * K + K" using assms by simp
  also have "\<dots> = Suc i * K" by simp
  also have "\<dots> \<le> K * K" using assms by (metis Suc_leI mult_le_mono1)
  finally show ?thesis .
qed

lemma changeValues_nth:
  assumes "i < length vals" "j < length vals"
  shows "changeValues (change_loop vals names f t) ! (i * length vals + j)
           = changeValue (vals ! i) (vals ! j)"
proof -
  have n: "i * length vals + j < length vals * length vals"
    using assms by (rule pair_index_less)
  then have "List.product vals vals ! (i * length vals + j) = (vals ! i, vals ! j)"
    using assms by (simp add: product_nth pair_index)
  with n show ?thesis
    by (simp add: changeValues_change_loop)
qed

lemma changeNames_nth:
  assumes "i < length vals" "j < length vals"
  shows "changeNames (change_loop vals names f t) ! (i * length vals + j)
           = changeName names i j"
proof -
  have n: "i * length vals + j < length vals * length vals"
    using assms by (rule pair_index_less)
  then have "List.product [0..<length vals] [0..<length vals] ! (i * length vals + j) = (i, j)"
    using assms by (simp add: product_nth pair_index)
  with n show ?thesis
    by (simp add: changeNames_change_loop)
qed

lemma changeName_in_range:
  "i < length names \<Longrightarrow> j < length names \<Longrightarrow> changeName names i j = names ! i @ '' -> '' @ names ! j"
  by (simp add: changeName_def js_index_def)

section \<open>Properties of the encoding\<close>

lemma set_class_codes_image: "set (class_codes K) = int ` {1..<Suc K}"
  by (simp only: class_codes_def set_map set_upt)

lemma set_class_codes: "set (class_codes K) = {1..int K}"
proof (rule set_eqI)
  fix x :: int
  show "x \<in> set (class_codes K) \<longleftrightarrow> x \<in> {1..int K}"
  proof
    assume "x \<in> set (class_codes K)"
    then show "x \<in> {1..int K}" unfolding set_class_codes_image by auto
  next
    assume "x \<in> {1..int K}"
    then have "nat x \<in> {1..<Suc K}" and "int (nat x) = x" by auto
    then show "x \<in> set (class_codes K)" unfolding set_class_codes_image by (metis imageI)
  qed
qed

lemma LULC_class_values_codes: "LULC_class_values = class_codes 6"
  unfolding LULC_class_values_def class_codes_def by code_simp

lemma changeValue_div: "0 \<le> v2 \<Longrightarrow> v2 < 100 \<Longrightarrow> changeValue v1 v2 div 100 = v1"
  unfolding changeValue_def by simp

lemma changeValue_mod: "0 \<le> v2 \<Longrightarrow> v2 < 100 \<Longrightarrow> changeValue v1 v2 mod 100 = v2"
  unfolding changeValue_def by simp

lemma changeValue_inj:
  assumes "0 \<le> v2" "v2 < 100" "0 \<le> w2" "w2 < 100" "changeValue v1 v2 = changeValue w1 w2"
  shows "v1 = w1 \<and> v2 = w2"
proof -
  have "changeValue v1 v2 div 100 = changeValue w1 w2 div 100"
    and "changeValue v1 v2 mod 100 = changeValue w1 w2 mod 100"
    using assms(5) by simp_all
  then show ?thesis
    using assms(1-4) by (simp add: changeValue_div changeValue_mod)
qed

text \<open>Codes up to 100 still do not collide: shift both second codes down by one.\<close>

lemma changeValue_inj100:
  assumes "1 \<le> v2" "v2 \<le> 100" "1 \<le> w2" "w2 \<le> 100" "changeValue v1 v2 = changeValue w1 w2"
  shows "v1 = w1 \<and> v2 = w2"
proof -
  have "changeValue v1 (v2 - 1) = changeValue w1 (w2 - 1)"
    using assms(5) by (simp add: changeValue_def)
  then have "v1 = w1 \<and> v2 - 1 = w2 - 1"
    using assms(1-4) by (intro changeValue_inj) simp_all
  then show ?thesis by simp
qed

section \<open>Catalogs with the codes 1..K\<close>

lemma distinct_class_codes: "distinct (class_codes K)"
  by (simp add: class_codes_def distinct_map)

lemma class_codes_nth: "i < K \<Longrightarrow> class_codes K ! i = int (Suc i)"
  by (simp add: class_codes_def del: upt_Suc)

lemma length_class_codes: "length (class_codes K) = K"
  by (simp add: class_codes_def del: upt_Suc)

lemma inj_on_changeValue_codes:
  assumes "K \<le> 100"
  shows "inj_on (\<lambda>(v1, v2). changeValue v1 v2) (set (class_codes K) \<times> set (class_codes K))"
proof (rule inj_onI)
  fix x y
  assume x: "x \<in> set (class_codes K) \<times> set (class_codes K)"
    and y: "y \<in> set (class_codes K) \<times> set (class_codes K)"
    and e: "(case x of (v1, v2) \<Rightarrow> changeValue v1 v2) = (case y of (v1, v2) \<Rightarrow> changeValue v1 v2)"
  obtain a b where xa: "x = (a, b)" by (cases x)
  obtain c d where yc: "y = (c, d)" by (cases y)
  from x y assms have "1 \<le> b" "b \<le> 100" "1 \<le> d" "d \<le> 100"
    by (auto simp: xa yc set_class_codes)
  moreover from e have "changeValue a b = changeValue c d" by (simp add: xa yc)
  ultimately have "a = c \<and> b = d" by (rule changeValue_inj100)
  then show "x = y" by (simp add: xa yc)
qed

lemma distinct_changeValues_codes:
  assumes "K \<le> 100"
  shows "distinct (changeValues (change_loop (class_codes K) names f t))"
  using assms
  by (simp add: changeValues_change_loop distinct_map distinct_product distinct_class_codes
      inj_on_changeValue_codes)

lemma distinct_keys_codes:
  assumes "K \<le> 100"
  shows "distinct (map js_String (changeValues (change_loop (class_codes K) names f t)))"
proof -
  have "inj_on js_String (set (changeValues (change_loop (class_codes K) names f t)))"
    using inj_js_String by (rule inj_on_subset) simp
  with distinct_changeValues_codes [OF assms] show ?thesis
    by (simp add: distinct_map)
qed

lemma dom_changeDict:
  "dom (changeDict vals names f t) = js_String ` set (changeValues (change_loop vals names f t))"
  by (simp add: changeDict_def Let_def dom_fromLists length_changeValues length_changeNames)

lemma card_dom_changeDict_codes:
  assumes "K \<le> 100"
  shows "card (dom (changeDict (class_codes K) names f t)) = K * K"
proof -
  have "card (dom (changeDict (class_codes K) names f t))
      = card (set (map js_String (changeValues (change_loop (class_codes K) names f t))))"
    by (simp add: dom_changeDict)
  also have "\<dots> = length (map js_String (changeValues (change_loop (class_codes K) names f t)))"
    using distinct_keys_codes [OF assms] by (rule distinct_card)
  finally show ?thesis by (simp add: length_changeValues length_class_codes)
qed

lemma changeDict_lookup_codes:
  assumes "K \<le> 100" "i < K" "j < K"
  shows "changeDict (class_codes K) names f t (js_String (changeValue (int (Suc i)) (int (Suc j))))
           = Some (changeName names i j)"
proof -
  let ?st = "change_loop (class_codes K) names f t"
  let ?ks = "map js_String (changeValues ?st)"
  have n: "i * K + j < K * K" using assms(2,3) by (rule pair_index_less)
  have l: "length ?ks = length (changeNames ?st)"
    by (simp add: length_changeValues length_changeNames)
  have nk: "i * K + j < length ?ks"
    using n by (simp add: length_changeValues length_class_codes)
  have "ee_Dictionary_fromLists ?ks (changeNames ?st) (?ks ! (i * K + j))
          = Some (changeNames ?st ! (i * K + j))"
    using l distinct_keys_codes [OF assms(1)] nk by (rule fromLists_nth)
  moreover have "changeValues ?st ! (i * K + j) = changeValue (int (Suc i)) (int (Suc j))"
    using changeValues_nth [of i "class_codes K" j names f t] assms(2,3)
    by (simp add: length_class_codes class_codes_nth)
  moreover have "changeNames ?st ! (i * K + j) = changeName names i j"
    using changeNames_nth [of i "class_codes K" j names f t] assms(2,3)
    by (simp add: length_class_codes)
  ultimately show ?thesis
    using nk by (simp add: changeDict_def Let_def)
qed

lemma changeMap_selfMasked_pixel:
  "changeMap_selfMasked vals names f t p =
     (case f p of None \<Rightarrow> None
      | Some a \<Rightarrow> (case t p of None \<Rightarrow> None
         | Some b \<Rightarrow> if a \<in> set vals \<and> b \<in> set vals \<and> changeValue a b \<noteq> 0
                    then Some (changeValue a b) else None))"
  by (simp add: changeMap_selfMasked_def ee_selfMask_def changeMap_change_loop split: option.splits)

lemma LULC_class_values_set: "set LULC_class_values = {1..6}"
  by (simp add: LULC_class_values_codes set_class_codes)

text \<open>The two filters of the split, on a feature that has the property.\<close>

lemma filter_lte_iff: "ft name = Some r \<Longrightarrow> ee_Filter_lte name v ft = (r \<le> v)"
  by (simp add: ee_Filter_lte_def)

lemma filter_gt_iff: "ft name = Some r \<Longrightarrow> ee_Filter_gt name v ft = (r > v)"
  by (simp add: ee_Filter_gt_def)

lemma split_counts:
  "list_all (\<lambda>ft. name \<in> dom ft) sample \<Longrightarrow>
     length (filter (ee_Filter_lte name v) sample) + length (filter (ee_Filter_gt name v) sample)
       = length sample"
proof (induction sample)
  case Nil
  then show ?case by simp
next
  case (Cons ft sample)
  then obtain r where "ft name = Some r" by (auto simp: dom_def)
  with Cons show ?case
    by (auto simp: filter_lte_iff filter_gt_iff)
qed

lemma split_membership:
  assumes "ft \<in> set sample" and "ft name = Some r"
  shows "(ft \<in> set (filter (ee_Filter_lte name v) sample)) = (r \<le> v)"
    and "(ft \<in> set (filter (ee_Filter_gt name v) sample)) = (r > v)"
  using assms by (simp_all add: filter_lte_iff filter_gt_iff)

section \<open>The area features of an epoch\<close>

lemma sum_list_imageArea:
  "sum_list (map (imageArea pixelArea) ps) = sum_list (map pixelArea ps) / 10000"
  by (induction ps) (simp_all add: imageArea_def add_divide_distrib)

lemma ee_List_get_named:
  "1 \<le> c \<Longrightarrow> c \<le> int (length names) \<Longrightarrow> ee_List_get names (c - 1) = Inr (names ! nat (c - 1))"
  by (simp add: ee_List_get_def)

lemma features_named:
  "list_all (\<lambda>g. 1 \<le> group_class g \<and> group_class g \<le> int (length names)) gs \<Longrightarrow>
     features names yr gs =
       Inr (map (\<lambda>g. \<lparr> group_class = group_class g, group_area = group_area g,
                        year = yr, LULC = names ! nat (group_class g - 1) \<rparr>) gs)"
  by (induction gs) (simp_all add: ee_List_get_named)

lemma set_map_filter_image: "set (List.map_filter img pixels) = {c. \<exists>p \<in> set pixels. img p = Some c}"
  by (induction pixels) (auto simp: List.map_filter_simps split: option.splits)

lemma classes_named_groups:
  assumes "classes_named names pixels img"
  shows "list_all (\<lambda>g. 1 \<le> group_class g \<and> group_class g \<le> int (length names))
           (reduceRegion_groups band0 img pixels)"
proof -
  have "1 \<le> c \<and> c \<le> int (length names)" if "c \<in> set (List.map_filter img pixels)" for c
  proof -
    from that obtain p where "p \<in> set pixels" "img p = Some c"
      by (auto simp: set_map_filter_image)
    with assms show ?thesis
      by (auto simp: classes_named_def list_all_iff)
  qed
  then show ?thesis
    by (simp add: reduceRegion_groups_def list_all_iff)
qed

lemma catalog_name_position:
  assumes "1 \<le> c" and "c \<le> int (length names)"
  shows "catalog_name (class_codes (length names)) names c = Some (names ! nat (c - 1))"
proof -
  let ?i = "nat (c - 1)"
  have i: "?i < length names" using assms by simp
  have "map_of (zip (class_codes (length names)) names) (class_codes (length names) ! ?i)
          = Some (names ! ?i)"
    using i by (intro map_of_zip_nth) (simp_all add: length_class_codes distinct_class_codes)
  moreover have "class_codes (length names) ! ?i = c"
    using assms i by (simp add: class_codes_nth)
  ultimately show ?thesis by (simp add: catalog_name_def)
qed

lemma epoch_features_spec:
  assumes "classes_named names pixels img"
  shows "epoch_features names pixelArea pixels (yr, img)
           = Inr (AreaRecords_spec names pixelArea pixels yr img)"
proof -
  let ?cs = "sort (remdups (List.map_filter img pixels))"
  have r: "1 \<le> c \<and> c \<le> int (length names)" if "c \<in> set ?cs" for c
  proof -
    from that obtain p where "p \<in> set pixels" "img p = Some c"
      by (auto simp: set_map_filter_image)
    with assms show ?thesis
      by (auto simp: classes_named_def list_all_iff)
  qed
  have "features names yr (reduceRegion_groups (imageArea pixelArea) img pixels)
      = Inr (map (\<lambda>g. \<lparr> group_class = group_class g, group_area = group_area g,
                        year = yr, LULC = names ! nat (group_class g - 1) \<rparr>)
               (reduceRegion_groups (imageArea pixelArea) img pixels))"
    using classes_named_groups [OF assms] by (rule features_named)
  also have "map (\<lambda>g. \<lparr> group_class = group_class g, group_area = group_area g,
                        year = yr, LULC = names ! nat (group_class g - 1) \<rparr>)
               (reduceRegion_groups (imageArea pixelArea) img pixels)
      = map (\<lambda>c. \<lparr> group_class = c,
                group_area = sum_list (map pixelArea (filter (\<lambda>p. img p = Some c) pixels)) / 10000,
                year = yr, LULC = names ! nat (c - 1) \<rparr>) ?cs"
    by (simp add: reduceRegion_groups_def sum_list_imageArea comp_def)
  also have "\<dots> = AreaRecords_spec names pixelArea pixels yr img"
    unfolding AreaRecords_spec_def
    by (rule map_cong [OF refl]) (simp add: catalog_name_position r)
  finally show ?thesis by (simp add: epoch_features_def)
qed

section \<open>The claims\<close>

text \<open>
  Claim C1. For a catalog of size \<open>K < 100\<close> and codes \<open>v1, v2, w1, w2\<close> in \<open>{1..K}\<close>, equal
  encodings \<open>v1 * 100 + v2\<close> come from equal pairs, and the quotient and the remainder of
  the encoding by 100 give back \<open>v1\<close> and \<open>v2\<close>.
\<close>

theorem changeValue_injective_decodable:
  assumes "K < 100"
    and "v1 \<in> set (class_codes K)" and "v2 \<in> set (class_codes K)"
    and "w1 \<in> set (class_codes K)" and "w2 \<in> set (class_codes K)"
  shows "(changeValue v1 v2 = changeValue w1 w2 \<longrightarrow> v1 = w1 \<and> v2 = w2)
       \<and> changeValue v1 v2 div 100 = v1 \<and> changeValue v1 v2 mod 100 = v2"
proof -
  from assms have b: "0 \<le> v2" "v2 < 100" "0 \<le> w2" "w2 < 100"
    by (auto simp: set_class_codes)
  have "changeValue v1 v2 = changeValue w1 w2 \<longrightarrow> v1 = w1 \<and> v2 = w2"
    using changeValue_inj [OF b] by blast
  moreover have "changeValue v1 v2 div 100 = v1"
    using b by (simp add: changeValue_div)
  moreover have "changeValue v1 v2 mod 100 = v2"
    using b by (simp add: changeValue_mod)
  ultimately show ?thesis by blast
qed

theorem changeValue_injective_decodable_witness:
  "(6::nat) < 100 \<and> 1 \<in> set (class_codes 6) \<and> 3 \<in> set (class_codes 6)
   \<and> changeValue 1 3 = 103 \<and> changeValue 3 1 = 301 \<and> changeValue 1 3 \<noteq> changeValue 3 1
   \<and> changeValue 1 3 div 100 = 1 \<and> changeValue 1 3 mod 100 = 3"
proof -
  have k: "(6::nat) < 100" by simp
  have m1: "1 \<in> set (class_codes 6)" by (simp add: set_class_codes)
  have m3: "3 \<in> set (class_codes 6)" by (simp add: set_class_codes)
  have v: "changeValue 1 3 = 103" "changeValue 3 1 = 301" by (simp_all add: changeValue_def)
  show ?thesis
    using changeValue_injective_decodable [OF k m1 m3 m3 m1]
      changeValue_injective_decodable [OF k m1 m3 m1 m3] k m1 m3 v
    by simp
qed

text \<open>
  Claim C2, as amended. The script keeps one transition image: line 55 overwrites the
  variable with its self-masked form, and that one image is the layer shown on the map
  and the \<open>transition\<close> band of both feature images. At a pixel it holds the
  encoding of the pair of classes when both are catalog values and the encoding is not
  zero, a pair of equal classes included, and it is masked at every other pixel.
\<close>

theorem transition_band_is_selfMasked:
  "band_pixel (variables vals names lulc2014 lulc2024 srtm roi) ''transition'' p
     = Some (snd (change_map_layer vals names lulc2014 lulc2024) p)
   \<and> band_pixel (variables2025 vals names lulc2014 lulc2024 srtm roi) ''transition'' p
     = Some (snd (change_map_layer vals names lulc2014 lulc2024) p)
   \<and> snd (change_map_layer vals names lulc2014 lulc2024) p =
       (case lulc2014 p of None \<Rightarrow> None
        | Some a \<Rightarrow> (case lulc2024 p of None \<Rightarrow> None
           | Some b \<Rightarrow> if a \<in> set vals \<and> b \<in> set vals \<and> changeValue a b \<noteq> 0
                      then Some (changeValue a b) else None))"
proof -
  have "band_pixel (variables vals names lulc2014 lulc2024 srtm roi) ''transition'' p
     = Some (snd (change_map_layer vals names lulc2014 lulc2024) p)"
    by (simp add: band_pixel_def variables_def change_map_layer_def)
  moreover have "band_pixel (variables2025 vals names lulc2014 lulc2024 srtm roi) ''transition'' p
     = Some (snd (change_map_layer vals names lulc2014 lulc2024) p)"
    by (simp add: band_pixel_def variables2025_def change_map_layer_def)
  moreover have "snd (change_map_layer vals names lulc2014 lulc2024) p =
       (case lulc2014 p of None \<Rightarrow> None
        | Some a \<Rightarrow> (case lulc2024 p of None \<Rightarrow> None
           | Some b \<Rightarrow> if a \<in> set vals \<and> b \<in> set vals \<and> changeValue a b \<noteq> 0
                      then Some (changeValue a b) else None))"
    by (simp add: change_map_layer_def changeMap_selfMasked_pixel)
  ultimately show ?thesis by blast
qed

theorem transition_band_is_selfMasked_witness:
  "band_pixel (variables LULC_class_values LULC_class_names (ee_Image 2) (ee_Image 2) (ee_Image 0) UNIV)
      ''transition'' () = Some (Some 202)
   \<and> band_pixel (variables2025 LULC_class_values LULC_class_names (ee_Image 2) (ee_Image 2) (ee_Image 0) UNIV)
      ''transition'' () = Some (Some 202)
   \<and> snd (change_map_layer LULC_class_values LULC_class_names (ee_Image 2) (ee_Image 2)) () = Some 202"
  using transition_band_is_selfMasked [of LULC_class_values LULC_class_names "ee_Image 2" "ee_Image 2"
      "ee_Image 0" UNIV "()"]
  by (simp add: ee_Image_def LULC_class_values_set changeValue_def)

text \<open>
  The claim as stated fails: where the 2014 class is not a catalog value the band of the
  feature image is masked while the image before self-masking holds 0, and the layer shown
  on the map keeps a pixel whose class did not change.
\<close>

theorem transition_band_unmasked_counterexample:
  "band_pixel (variables LULC_class_values LULC_class_names (ee_Image 0) (ee_Image 1) (ee_Image 0) UNIV)
      ''transition'' () = Some None
   \<and> changeMap (change_loop LULC_class_values LULC_class_names (ee_Image 0) (ee_Image 1)) () = Some 0
   \<and> snd (change_map_layer LULC_class_values LULC_class_names (ee_Image 1) (ee_Image 1)) () = Some 101"
  by (simp add: band_pixel_def variables_def change_map_layer_def changeMap_selfMasked_pixel
      changeMap_change_loop ee_Image_def LULC_class_values_set changeValue_def)

text \<open>
  Claim C3, as amended. The script validates nothing: for every catalog, of any size, the
  encoder returns its result, never an error, with one encoded value and one label for each
  ordered pair and the self-masked image.
\<close>

theorem Transition_Encoder_never_fails:
  "\<exists>st. Transition_Encoder vals names image0 image1 = Inr st
     \<and> length (changeValues st) = length vals * length vals
     \<and> length (changeNames st) = length vals * length vals
     \<and> changeMap st = changeMap_selfMasked vals names image0 image1"
  by (simp add: Transition_Encoder_def length_changeValues length_changeNames)

text \<open>
  The claim as stated fails for a catalog of 100 classes: the encoder returns, and a pixel
  going from class 1 to class 100 is encoded 200.
\<close>

theorem Transition_Encoder_K100_counterexample:
  "\<not> isl (Transition_Encoder (class_codes 100) (replicate 100 ''c'') (ee_Image 1)
          (ee_Image 100 :: unit image))
   \<and> length (class_codes 100) = 100
   \<and> changeMap (projr (Transition_Encoder (class_codes 100) (replicate 100 ''c'')
        (ee_Image 1) (ee_Image 100))) () = Some 200"
  by (simp add: Transition_Encoder_def length_class_codes changeMap_selfMasked_pixel ee_Image_def
      set_class_codes changeValue_def)

text \<open>
  Claim C5, as amended. When the two rasters are identical, a pixel whose class \<open>v\<close> is a
  non-zero catalog value is encoded \<open>v * 100 + v\<close>, and self-masking keeps it: only
  pixels of value 0 are masked.
\<close>

theorem identical_rasters_retained:
  assumes "f p = Some v" and "v \<in> set vals" and "v \<noteq> 0"
  shows "changeMap (change_loop vals names f f) p = Some (v * 100 + v)
       \<and> changeMap_selfMasked vals names f f p = Some (v * 100 + v)"
proof -
  from assms(3) have "changeValue v v \<noteq> 0"
    by (simp add: changeValue_def)
  with assms(1,2) show ?thesis
    by (simp add: changeMap_change_loop changeMap_selfMasked_pixel changeValue_def)
qed

theorem identical_rasters_retained_witness:
  "ee_Image 3 () = Some 3 \<and> 3 \<in> set LULC_class_values \<and> (3::int) \<noteq> 0
   \<and> changeMap (change_loop LULC_class_values LULC_class_names (ee_Image 3) (ee_Image 3)) () = Some 303
   \<and> changeMap_selfMasked LULC_class_values LULC_class_names (ee_Image 3) (ee_Image 3) () = Some 303"
proof -
  have a: "ee_Image 3 () = Some 3" by (simp add: ee_Image_def)
  have b: "3 \<in> set LULC_class_values" by (simp add: LULC_class_values_set)
  have c: "(3::int) \<noteq> 0" by simp
  show ?thesis
    using identical_rasters_retained [where f = "ee_Image 3" and p = "()" and v = 3
        and vals = LULC_class_values and names = LULC_class_names] a b
    by simp
qed

text \<open>
  The claim as stated fails: with both rasters constantly class 1 the self-masked image
  holds 101, so it is not empty.
\<close>

theorem identical_rasters_empty_counterexample:
  "changeMap_selfMasked LULC_class_values LULC_class_names (ee_Image 1) (ee_Image 1) () = Some 101"
  by (simp add: changeMap_selfMasked_pixel ee_Image_def LULC_class_values_set changeValue_def)

text \<open>
  Claim C9. A pixel whose two classes are not both catalog values keeps the initial value
  0 through the loops and is masked by the self-masking; and wherever the self-masked
  image has a value, the two classes are catalog values and the value is their encoding.
\<close>

theorem uncatalogued_pairs_masked:
  "(f p = Some a \<and> t p = Some b \<and> (a \<notin> set vals \<or> b \<notin> set vals)
      \<longrightarrow> changeMap (change_loop vals names f t) p = Some 0
          \<and> changeMap_selfMasked vals names f t p = None)
   \<and> (changeMap_selfMasked vals names f t p = Some x
      \<longrightarrow> (\<exists>a' b'. f p = Some a' \<and> t p = Some b' \<and> a' \<in> set vals \<and> b' \<in> set vals
            \<and> x = changeValue a' b'))"
proof (intro conjI impI)
  assume h: "f p = Some a \<and> t p = Some b \<and> (a \<notin> set vals \<or> b \<notin> set vals)"
  then show "changeMap (change_loop vals names f t) p = Some 0"
    by (auto simp: changeMap_change_loop)
  from h show "changeMap_selfMasked vals names f t p = None"
    by (auto simp: changeMap_selfMasked_pixel)
next
  assume "changeMap_selfMasked vals names f t p = Some x"
  then show "\<exists>a' b'. f p = Some a' \<and> t p = Some b' \<and> a' \<in> set vals \<and> b' \<in> set vals
            \<and> x = changeValue a' b'"
    by (auto simp: changeMap_selfMasked_pixel split: option.splits if_splits)
qed

theorem uncatalogued_pairs_masked_witness:
  "ee_Image 9 () = Some 9 \<and> ee_Image 2 () = Some 2 \<and> 9 \<notin> set LULC_class_values
   \<and> changeMap (change_loop LULC_class_values LULC_class_names (ee_Image 9) (ee_Image 2)) () = Some 0
   \<and> changeMap_selfMasked LULC_class_values LULC_class_names (ee_Image 9) (ee_Image 2) () = None
   \<and> changeMap_selfMasked LULC_class_values LULC_class_names (ee_Image 1) (ee_Image 2) () = Some 102
   \<and> (\<exists>a' b'. ee_Image 1 () = Some a' \<and> ee_Image 2 () = Some b' \<and> a' \<in> set LULC_class_values
         \<and> b' \<in> set LULC_class_values \<and> 102 = changeValue a' b')"
proof -
  have a: "ee_Image 9 () = Some 9" "ee_Image 2 () = Some 2" "9 \<notin> set LULC_class_values"
    by (simp_all add: ee_Image_def LULC_class_values_set)
  have m: "changeMap_selfMasked LULC_class_values LULC_class_names (ee_Image 1) (ee_Image 2) () = Some 102"
    by (simp add: changeMap_selfMasked_pixel ee_Image_def LULC_class_values_set changeValue_def)
  from a uncatalogued_pairs_masked [where f = "ee_Image 9" and t = "ee_Image 2" and p = "()"
      and a = 9 and b = 2 and vals = LULC_class_values and names = LULC_class_names]
  have 1: "changeMap (change_loop LULC_class_values LULC_class_names (ee_Image 9) (ee_Image 2)) () = Some 0
       \<and> changeMap_selfMasked LULC_class_values LULC_class_names (ee_Image 9) (ee_Image 2) () = None"
    by blast
  from m uncatalogued_pairs_masked [where f = "ee_Image 1" and t = "ee_Image 2" and p = "()"
      and x = 102 and vals = LULC_class_values and names = LULC_class_names]
  have 2: "\<exists>a' b'. ee_Image 1 () = Some a' \<and> ee_Image 2 () = Some b' \<and> a' \<in> set LULC_class_values
         \<and> b' \<in> set LULC_class_values \<and> 102 = changeValue a' b'"
    by blast
  from a m 1 2 show ?thesis by blast
qed

text \<open>
  Claim C6. At a pixel where both rasters have a value, the \<open>year\<close> band of the
  training image is 2024 where the 2014 and 2024 classes differ and 0 where they are equal,
  and the \<open>year\<close> band of the forecast image is 2033 where the same two rasters
  differ and 0 where they are equal.
\<close>

theorem year_band_pixel:
  assumes "lulc2014 p = Some a" and "lulc2024 p = Some b"
  shows "band_pixel (variables vals names lulc2014 lulc2024 srtm roi) ''year'' p
           = Some (Some (if a \<noteq> b then 2024 else 0))
       \<and> band_pixel (variables2025 vals names lulc2014 lulc2024 srtm roi) ''year'' p
           = Some (Some (if a \<noteq> b then 2033 else 0))"
  using assms
  by (auto simp: band_pixel_def variables_def variables2025_def ee_multiply_def ee_neq_def ee_Image_def)

theorem year_band_pixel_witness:
  "ee_Image 1 () = Some 1 \<and> ee_Image 5 () = Some 5
   \<and> band_pixel (variables LULC_class_values LULC_class_names (ee_Image 1) (ee_Image 5) (ee_Image 0) UNIV)
        ''year'' () = Some (Some 2024)
   \<and> band_pixel (variables2025 LULC_class_values LULC_class_names (ee_Image 1) (ee_Image 5) (ee_Image 0) UNIV)
        ''year'' () = Some (Some 2033)
   \<and> band_pixel (variables LULC_class_values LULC_class_names (ee_Image 1) (ee_Image 1) (ee_Image 0) UNIV)
        ''year'' () = Some (Some 0)
   \<and> band_pixel (variables2025 LULC_class_values LULC_class_names (ee_Image 1) (ee_Image 1) (ee_Image 0) UNIV)
        ''year'' () = Some (Some 0)"
proof -
  have a: "ee_Image 1 () = Some 1" and b: "ee_Image 5 () = Some 5"
    by (simp_all add: ee_Image_def)
  show ?thesis
    using year_band_pixel [where ?lulc2014.0 = "ee_Image 1" and ?lulc2024.0 = "ee_Image 5" and p = "()"
        and a = 1 and b = 5 and vals = LULC_class_values and names = LULC_class_names
        and srtm = "ee_Image 0" and roi = UNIV]
      year_band_pixel [where ?lulc2014.0 = "ee_Image 1" and ?lulc2024.0 = "ee_Image 1" and p = "()"
        and a = 1 and b = 1 and vals = LULC_class_values and names = LULC_class_names
        and srtm = "ee_Image 0" and roi = UNIV] a b
    by simp
qed

text \<open>
  Claim C7. When every sampled feature carries the \<open>random\<close> property, the sizes of
  the train and test collections add up to the size of the sample, and a feature of the
  sample with random value \<open>r\<close> is in train exactly when \<open>r \<le> 0.8\<close>, in test
  exactly when \<open>r > 0.8\<close>, and so in exactly one of the two.
\<close>

theorem train_test_partition:
  assumes "list_all (\<lambda>ft. ''random'' \<in> dom ft) sample"
  shows "length (train sample) + length (test sample) = length sample
       \<and> (\<forall>ft \<in> set sample. \<forall>r. ft ''random'' = Some r \<longrightarrow>
            (ft \<in> set (train sample)) = (r \<le> 0.8)
          \<and> (ft \<in> set (test sample)) = (r > 0.8)
          \<and> (ft \<in> set (train sample)) \<noteq> (ft \<in> set (test sample)))"
proof -
  have "length (train sample) + length (test sample) = length sample"
    unfolding train_def test_def using assms by (rule split_counts)
  moreover have "(ft \<in> set (train sample)) = (r \<le> 0.8)
          \<and> (ft \<in> set (test sample)) = (r > 0.8)
          \<and> (ft \<in> set (train sample)) \<noteq> (ft \<in> set (test sample))"
    if "ft \<in> set sample" and "ft ''random'' = Some r" for ft r
  proof -
    have 1: "(ft \<in> set (train sample)) = (r \<le> 0.8)"
      unfolding train_def using that by (rule split_membership)
    have 2: "(ft \<in> set (test sample)) = (r > 0.8)"
      unfolding test_def using that by (rule split_membership)
    from 1 2 show ?thesis by auto
  qed
  ultimately show ?thesis by blast
qed

theorem train_test_partition_witness:
  "list_all (\<lambda>ft. ''random'' \<in> dom ft)
      [[''random'' \<mapsto> 0.25], [''random'' \<mapsto> 0.8], [''random'' \<mapsto> 0.93]]
   \<and> length (train [[''random'' \<mapsto> 0.25], [''random'' \<mapsto> 0.8], [''random'' \<mapsto> 0.93]])
     + length (test [[''random'' \<mapsto> 0.25], [''random'' \<mapsto> 0.8], [''random'' \<mapsto> 0.93]]) = 3
   \<and> [''random'' \<mapsto> 0.8] \<in> set (train [[''random'' \<mapsto> 0.25], [''random'' \<mapsto> 0.8], [''random'' \<mapsto> 0.93]])
   \<and> [''random'' \<mapsto> 0.8] \<notin> set (test [[''random'' \<mapsto> 0.25], [''random'' \<mapsto> 0.8], [''random'' \<mapsto> 0.93]])
   \<and> [''random'' \<mapsto> 0.93] \<in> set (test [[''random'' \<mapsto> 0.25], [''random'' \<mapsto> 0.8], [''random'' \<mapsto> 0.93]])
   \<and> [''random'' \<mapsto> 0.93] \<notin> set (train [[''random'' \<mapsto> 0.25], [''random'' \<mapsto> 0.8], [''random'' \<mapsto> 0.93]])"
proof -
  let ?s = "[[''random'' \<mapsto> 0.25], [''random'' \<mapsto> 0.8], [''random'' \<mapsto> 0.93 :: real]]"
  have h: "list_all (\<lambda>ft. ''random'' \<in> dom ft) ?s" by simp
  have m1: "[''random'' \<mapsto> 0.8 :: real] \<in> set ?s" and m2: "[''random'' \<mapsto> 0.93 :: real] \<in> set ?s"
    by simp_all
  have r1: "[''random'' \<mapsto> 0.8 :: real] ''random'' = Some 0.8"
    and r2: "[''random'' \<mapsto> 0.93 :: real] ''random'' = Some 0.93" by simp_all
  note t = train_test_partition [OF h]
  from t have c: "length (train ?s) + length (test ?s) = 3" by simp
  from t m1 r1 have a1: "([''random'' \<mapsto> 0.8] \<in> set (train ?s)) = ((0.8::real) \<le> 0.8)"
    and a2: "([''random'' \<mapsto> 0.8] \<in> set (test ?s)) = ((0.8::real) > 0.8)" by blast+
  from t m2 r2 have b1: "([''random'' \<mapsto> 0.93] \<in> set (train ?s)) = ((0.93::real) \<le> 0.8)"
    and b2: "([''random'' \<mapsto> 0.93] \<in> set (test ?s)) = ((0.93::real) > 0.8)" by blast+
  from h c a1 a2 b1 b2 show ?thesis by simp
qed

text \<open>
  Claim C4. For a catalog with the codes 1..K and K names, the two arrays filled by the
  loops have exactly K * K entries each, and the entry for the pair at positions
  \<open>(i, j)\<close> holds the encoding of the two codes and the label made of the name of
  the first, then \<open>'' -> ''\<close>, then the name of the second. For the catalogs the
  encoding is meant for, K below 100 (and also K = 100), the encodings are pairwise
  different, so the dictionary built from the arrays has exactly K * K entries and maps
  the encoding of each pair to that label.
\<close>

theorem transition_catalog_entries:
  assumes "length names = K"
  shows "length (changeValues (change_loop (class_codes K) names f t)) = K * K
       \<and> length (changeNames (change_loop (class_codes K) names f t)) = K * K
       \<and> (\<forall>i<K. \<forall>j<K.
            changeValues (change_loop (class_codes K) names f t) ! (i * K + j)
              = changeValue (int (Suc i)) (int (Suc j))
          \<and> changeNames (change_loop (class_codes K) names f t) ! (i * K + j)
              = names ! i @ '' -> '' @ names ! j)
       \<and> (K \<le> 100 \<longrightarrow>
            card (dom (changeDict (class_codes K) names f t)) = K * K
          \<and> (\<forall>i<K. \<forall>j<K.
                changeDict (class_codes K) names f t
                    (js_String (changeValue (int (Suc i)) (int (Suc j))))
                  = Some (names ! i @ '' -> '' @ names ! j)))"
proof -
  let ?st = "change_loop (class_codes K) names f t"
  have 1: "length (changeValues ?st) = K * K"
    by (simp add: length_changeValues length_class_codes)
  have 2: "length (changeNames ?st) = K * K"
    by (simp add: length_changeNames length_class_codes)
  have 3: "changeValues ?st ! (i * K + j) = changeValue (int (Suc i)) (int (Suc j))
         \<and> changeNames ?st ! (i * K + j) = names ! i @ '' -> '' @ names ! j"
    if "i < K" "j < K" for i j
  proof -
    have "changeValues ?st ! (i * K + j) = changeValue (int (Suc i)) (int (Suc j))"
      using changeValues_nth [of i "class_codes K" j names f t] that
      by (simp add: length_class_codes class_codes_nth)
    moreover have "changeNames ?st ! (i * K + j) = changeName names i j"
      using changeNames_nth [of i "class_codes K" j names f t] that
      by (simp add: length_class_codes)
    moreover have "changeName names i j = names ! i @ '' -> '' @ names ! j"
      using that assms by (intro changeName_in_range) simp_all
    ultimately show ?thesis by simp
  qed
  have 4: "changeDict (class_codes K) names f t (js_String (changeValue (int (Suc i)) (int (Suc j))))
             = Some (names ! i @ '' -> '' @ names ! j)"
    if "K \<le> 100" "i < K" "j < K" for i j
  proof -
    have "changeName names i j = names ! i @ '' -> '' @ names ! j"
      using that assms by (intro changeName_in_range) simp_all
    with changeDict_lookup_codes [OF that, of names f t] show ?thesis by simp
  qed
  from 1 2 3 4 card_dom_changeDict_codes [of K names f t] show ?thesis by blast
qed

theorem transition_catalog_entries_witness:
  "length LULC_class_names = 6 \<and> (6::nat) \<le> 100
   \<and> length (changeValues (change_loop (class_codes 6) LULC_class_names (ee_Image 1) (ee_Image 1 :: unit image))) = 36
   \<and> length (changeNames (change_loop (class_codes 6) LULC_class_names (ee_Image 1) (ee_Image 1 :: unit image))) = 36
   \<and> changeValues (change_loop (class_codes 6) LULC_class_names (ee_Image 1) (ee_Image 1 :: unit image)) ! 2 = 103
   \<and> changeNames (change_loop (class_codes 6) LULC_class_names (ee_Image 1) (ee_Image 1 :: unit image)) ! 2
        = ''Waterbody -> Agriculture land''
   \<and> card (dom (changeDict (class_codes 6) LULC_class_names (ee_Image 1) (ee_Image 1 :: unit image))) = 36
   \<and> changeDict (class_codes 6) LULC_class_names (ee_Image 1) (ee_Image 1 :: unit image) ''103''
        = Some ''Waterbody -> Agriculture land''"
proof -
  let ?st = "change_loop (class_codes 6) LULC_class_names (ee_Image 1) (ee_Image 1 :: unit image)"
  let ?d = "changeDict (class_codes 6) LULC_class_names (ee_Image 1) (ee_Image 1 :: unit image)"
  have l: "length LULC_class_names = 6" by (simp add: LULC_class_names_def)
  have k: "(6::nat) \<le> 100" by simp
  have z: "(0::nat) < 6" "(2::nat) < 6" by simp_all
  have i: "0 * 6 + 2 = (2::nat)" "6 * 6 = (36::nat)" by simp_all
  have v: "changeValue (int (Suc 0)) (int (Suc 2)) = 103" by (simp add: changeValue_def)
  have s: "js_String 103 = ''103''" by code_simp
  have n: "LULC_class_names ! 0 @ '' -> '' @ LULC_class_names ! 2 = ''Waterbody -> Agriculture land''"
    by (simp add: LULC_class_names_def)
  note t = transition_catalog_entries [OF l, of "ee_Image 1 :: unit image" "ee_Image 1"]
  from t have a: "length (changeValues ?st) = 6 * 6" and b: "length (changeNames ?st) = 6 * 6"
    by blast+
  from t z have c: "changeValues ?st ! (0 * 6 + 2) = changeValue (int (Suc 0)) (int (Suc 2))"
    and d: "changeNames ?st ! (0 * 6 + 2) = LULC_class_names ! 0 @ '' -> '' @ LULC_class_names ! 2"
    by blast+
  from t k have e: "card (dom ?d) = 6 * 6"
    by blast
  from t k z have g: "?d (js_String (changeValue (int (Suc 0)) (int (Suc 2))))
                  = Some (LULC_class_names ! 0 @ '' -> '' @ LULC_class_names ! 2)"
    by blast
  from l k a [unfolded i] b [unfolded i] c [unfolded i v] d [unfolded i n] e [unfolded i]
    g [unfolded v s n]
  show ?thesis by blast
qed

text \<open>
  Claim C8. When the classes of the three images over the region are codes of the catalog,
  the collection of area features is, for 2014, then 2024, then 2033, the records of that
  epoch: for each class of the image the sum of the pixel areas of the class in square
  metres divided by 10000, the catalog name of the class, and the year of the epoch.
\<close>

theorem area_features_by_epoch:
  assumes "classes_named names pixels lulc2014"
    and "classes_named names pixels lulc2024"
    and "classes_named names pixels lulc2033"
  shows "lulcAreafeatures names pixelArea pixels lulc2014 lulc2024 lulc2033 =
           Inr (AreaRecords_spec names pixelArea pixels 2014 lulc2014
              @ AreaRecords_spec names pixelArea pixels 2024 lulc2024
              @ AreaRecords_spec names pixelArea pixels 2033 lulc2033)"
  by (simp add: lulcAreafeatures_def lulcList_def epoch_features_spec [OF assms(1)]
      epoch_features_spec [OF assms(2)] epoch_features_spec [OF assms(3)])

theorem area_features_by_epoch_witness:
  "classes_named LULC_class_names [1, 2, 3 :: int] (ee_where (ee_Image 1) (ee_eq Some 3) 4)
   \<and> classes_named LULC_class_names [1, 2, 3 :: int] (ee_Image 5)
   \<and> classes_named LULC_class_names [1, 2, 3 :: int] (ee_Image 6)
   \<and> lulcAreafeatures LULC_class_names (\<lambda>p. 100) [1, 2, 3 :: int]
        (ee_where (ee_Image 1) (ee_eq Some 3) 4) (ee_Image 5) (ee_Image 6)
      = Inr [\<lparr> group_class = 1, group_area = 200 / 10000, year = 2014, LULC = ''Waterbody'' \<rparr>,
             \<lparr> group_class = 4, group_area = 100 / 10000, year = 2014, LULC = ''Range land'' \<rparr>,
             \<lparr> group_class = 5, group_area = 300 / 10000, year = 2024, LULC = ''Builtup'' \<rparr>,
             \<lparr> group_class = 6, group_area = 300 / 10000, year = 2033, LULC = ''Barren land'' \<rparr>]"
proof -
  let ?a = "ee_where (ee_Image 1) (ee_eq Some 3) 4 :: int image"
  have p: "?a 1 = Some 1" "?a 2 = Some 1" "?a 3 = Some 4"
    by (simp_all add: ee_where_def ee_Image_def ee_eq_def)
  have h1: "classes_named LULC_class_names [1, 2, 3 :: int] ?a"
    by (simp add: classes_named_def p LULC_class_names_def)
  have h2: "classes_named LULC_class_names [1, 2, 3 :: int] (ee_Image 5)"
    by (simp add: classes_named_def ee_Image_def LULC_class_names_def)
  have h3: "classes_named LULC_class_names [1, 2, 3 :: int] (ee_Image 6)"
    by (simp add: classes_named_def ee_Image_def LULC_class_names_def)
  have c: "catalog_name (class_codes (length LULC_class_names)) LULC_class_names 1 = Some ''Waterbody''"
    "catalog_name (class_codes (length LULC_class_names)) LULC_class_names 4 = Some ''Range land''"
    "catalog_name (class_codes (length LULC_class_names)) LULC_class_names 5 = Some ''Builtup''"
    "catalog_name (class_codes (length LULC_class_names)) LULC_class_names 6 = Some ''Barren land''"
    by (subst catalog_name_position; simp add: LULC_class_names_def)+
  have s1: "AreaRecords_spec LULC_class_names (\<lambda>p. 100) [1, 2, 3 :: int] 2014 ?a
      = [\<lparr> group_class = 1, group_area = 200 / 10000, year = 2014, LULC = ''Waterbody'' \<rparr>,
         \<lparr> group_class = 4, group_area = 100 / 10000, year = 2014, LULC = ''Range land'' \<rparr>]"
    by (simp add: AreaRecords_spec_def List.map_filter_simps p c)
  have s2: "AreaRecords_spec LULC_class_names (\<lambda>p. 100) [1, 2, 3 :: int] 2024 (ee_Image 5)
      = [\<lparr> group_class = 5, group_area = 300 / 10000, year = 2024, LULC = ''Builtup'' \<rparr>]"
    by (simp add: AreaRecords_spec_def List.map_filter_simps ee_Image_def c)
  have s3: "AreaRecords_spec LULC_class_names (\<lambda>p. 100) [1, 2, 3 :: int] 2033 (ee_Image 6)
      = [\<lparr> group_class = 6, group_area = 300 / 10000, year = 2033, LULC = ''Barren land'' \<rparr>]"
    by (simp add: AreaRecords_spec_def List.map_filter_simps ee_Image_def c)
  show ?thesis
    using area_features_by_epoch [OF h1 h2 h3, of "\<lambda>p. 100"] h1 h2 h3
    by (simp only: s1 s2 s3 append_Cons append_Nil simp_thms)
qed

text \<open>
  Claim C10, as amended. The label of a group is the element of the name list at position
  class code minus one. For a class code in 1..K it is the name the catalog gives to the
  code. For a class code in 1-K..0 the position is negative and counts from the end of the
  list: a label comes back, without an error, but it is the name of another class. For a
  class code above K or below 1-K the position is outside the list and the lookup is an
  error.
\<close>

theorem relabel_by_position:
  "(1 \<le> group_class g \<and> group_class g \<le> int (length names) \<longrightarrow>
      features names yr [g] =
        Inr [\<lparr> group_class = group_class g, group_area = group_area g, year = yr,
               LULC = names ! nat (group_class g - 1) \<rparr>]
      \<and> catalog_name (class_codes (length names)) names (group_class g)
          = Some (names ! nat (group_class g - 1)))
   \<and> (1 - int (length names) \<le> group_class g \<and> group_class g \<le> 0 \<longrightarrow>
      features names yr [g] =
        Inr [\<lparr> group_class = group_class g, group_area = group_area g, year = yr,
               LULC = names ! nat (int (length names) + group_class g - 1) \<rparr>])
   \<and> (int (length names) < group_class g \<or> group_class g < 1 - int (length names) \<longrightarrow>
      features names yr [g] = Inl ListIndexError)"
proof (intro conjI impI)
  assume h: "1 \<le> group_class g \<and> group_class g \<le> int (length names)"
  then show "features names yr [g] =
        Inr [\<lparr> group_class = group_class g, group_area = group_area g, year = yr,
               LULC = names ! nat (group_class g - 1) \<rparr>]"
    by (simp add: ee_List_get_def)
  from h show "catalog_name (class_codes (length names)) names (group_class g)
          = Some (names ! nat (group_class g - 1))"
    by (simp add: catalog_name_position)
next
  assume "1 - int (length names) \<le> group_class g \<and> group_class g \<le> 0"
  then show "features names yr [g] =
        Inr [\<lparr> group_class = group_class g, group_area = group_area g, year = yr,
               LULC = names ! nat (int (length names) + group_class g - 1) \<rparr>]"
    by (simp add: ee_List_get_def algebra_simps)
next
  assume "int (length names) < group_class g \<or> group_class g < 1 - int (length names)"
  then show "features names yr [g] = Inl ListIndexError"
    by (auto simp: ee_List_get_def)
qed

theorem relabel_by_position_witness:
  "features LULC_class_names 2014 [\<lparr> group_class = 3, group_area = 2 \<rparr>]
     = Inr [\<lparr> group_class = 3, group_area = 2, year = 2014, LULC = ''Agriculture land'' \<rparr>]
   \<and> features LULC_class_names 2024 [\<lparr> group_class = 0, group_area = 2 \<rparr>]
     = Inr [\<lparr> group_class = 0, group_area = 2, year = 2024, LULC = ''Barren land'' \<rparr>]
   \<and> features LULC_class_names 2033 [\<lparr> group_class = 9, group_area = 2 \<rparr>] = Inl ListIndexError"
  using relabel_by_position [of "\<lparr> group_class = 3, group_area = 2 \<rparr>" LULC_class_names 2014]
    relabel_by_position [of "\<lparr> group_class = 0, group_area = 2 \<rparr>" LULC_class_names 2024]
    relabel_by_position [of "\<lparr> group_class = 9, group_area = 2 \<rparr>" LULC_class_names 2033]
  by (simp add: LULC_class_names_def)

text \<open>
  The claim as stated fails for a class code above K: with the six names of the script a
  group of class 7 gives no label, wrong or absent, but the error of the list lookup.
\<close>

theorem relabel_out_of_range_counterexample:
  "features LULC_class_names 2033 [\<lparr> group_class = 7, group_area = 1 \<rparr>] = Inl ListIndexError"
  by (simp add: ee_List_get_def LULC_class_names_def)

end
